theory Spec2Isabelle
  imports
    Main
    "HOL-Library.Char_ord"
    "HOL-Library.List_Lexorder"
    "HOL-Library.Product_Lexorder"
    "HOL-Library.Multiset"
begin

section \<open>Values and documents of the store\<close>

text \<open>
  The API of \<^verbatim>\<open>src/api/index.js\<close> is an Express application over three MongoDB
  collections. Documents are schema-less: a document is an ordered list of attributes.
  The embedding keeps the value kinds the handlers themselves create or compare: strings,
  booleans, dates (milliseconds since the epoch), native object identifiers, and integral
  numbers and null for the attributes of documents written by other programs.
  An object identifier is twelve bytes; it is kept as the number those bytes denote.
\<close>

datatype objectid = ObjectId nat

datatype bson = BNull | BNum int | BStr string | BOid objectid | BBool bool | BDate int

type_synonym doc = "(string \<times> bson) list"

text \<open>
  The store compares values of different kinds by kind first (null, numbers, strings,
  object identifiers, booleans, dates, in this order) and then inside the kind; a document
  without the attribute is compared as if the attribute were null. The comparison key
  below is that order, as a triple compared lexicographically.
\<close>

fun bson_key :: "bson option \<Rightarrow> nat \<times> int \<times> string" where
  "bson_key None = (2, 0, [])"
| "bson_key (Some BNull) = (2, 0, [])"
| "bson_key (Some (BNum n)) = (3, n, [])"
| "bson_key (Some (BStr s)) = (4, 0, s)"
| "bson_key (Some (BOid (ObjectId n))) = (8, int n, [])"
| "bson_key (Some (BBool b)) = (9, (if b then 1 else 0), [])"
| "bson_key (Some (BDate t)) = (10, t, [])"

definition field_key :: "string \<Rightarrow> doc \<Rightarrow> nat \<times> int \<times> string" where
  "field_key k d = bson_key (map_of d k)"

section \<open>Collection operations of the driver\<close>

text \<open>
  The two filters the handlers use: \<^verbatim>\<open>{}\<close> and \<^verbatim>\<open>{ _id: v }\<close>.
\<close>

datatype query = All | ById bson

fun matches :: "query \<Rightarrow> doc \<Rightarrow> bool" where
  "matches All d = True"
| "matches (ById v) d = (map_of d ''_id'' = Some v)"

text \<open>\<^verbatim>\<open>.sort({ k: -1 })\<close>: descending by the attribute \<open>k\<close>.\<close>

fun insert_desc :: "string \<Rightarrow> doc \<Rightarrow> doc list \<Rightarrow> doc list" where
  "insert_desc k x [] = [x]"
| "insert_desc k x (y # ys) =
     (if field_key k y \<le> field_key k x then x # y # ys else y # insert_desc k x ys)"

fun sort_desc :: "string \<Rightarrow> doc list \<Rightarrow> doc list" where
  "sort_desc k [] = []"
| "sort_desc k (x # xs) = insert_desc k x (sort_desc k xs)"

text \<open>\<^verbatim>\<open>$set\<close> of one attribute: replaced where it stands, appended when absent.\<close>

fun set_field :: "string \<Rightarrow> bson \<Rightarrow> doc \<Rightarrow> doc" where
  "set_field k v [] = [(k, v)]"
| "set_field k v (p # ps) = (if fst p = k then (k, v) # ps else p # set_field k v ps)"

fun apply_set :: "(string \<times> bson) list \<Rightarrow> doc \<Rightarrow> doc" where
  "apply_set [] d = d"
| "apply_set ((k, v) # us) d = apply_set us (set_field k v d)"

text \<open>
  \<^verbatim>\<open>updateOne\<close> changes the first matching document and reports how many documents
  matched (0 or 1), whether or not the document was already in the requested state.
\<close>

fun update_first :: "query \<Rightarrow> (string \<times> bson) list \<Rightarrow> doc list \<Rightarrow> nat \<times> doc list" where
  "update_first q us [] = (0, [])"
| "update_first q us (d # ds) =
     (if matches q d then (1, apply_set us d # ds)
      else (case update_first q us ds of (n, ds') \<Rightarrow> (n, d # ds')))"

section \<open>Process state, environment and responses\<close>

text \<open>
  The module-level variables \<^verbatim>\<open>db\<close> and \<^verbatim>\<open>isConnected\<close>, a count of the calls made to
  \<^verbatim>\<open>client.connect()\<close>, and the contents of the three collections.
  A database handle is identified by the name of its database.
\<close>

record state =
  db :: "string option"
  isConnected :: bool
  connect_calls :: nat
  podcasts :: "doc list"
  videos :: "doc list"
  messages :: "doc list"

text \<open>
  What the process is given and does not define itself: the environment variable
  \<^verbatim>\<open>DB_NAME\<close>, and the driver's \<^verbatim>\<open>ObjectId\<close>: its constructor from a string, which
  throws on a string it does not accept (\<open>None\<close>), and the hexadecimal form in which an
  identifier is written into a JSON response.
\<close>

record platform =
  env_DB_NAME :: "string option"
  parseObjectId :: "string \<Rightarrow> objectid option"
  toHexString :: "objectid \<Rightarrow> string"

definition DB_NAME :: "platform \<Rightarrow> string" where
  "DB_NAME P = (case env_DB_NAME P of None \<Rightarrow> ''Assets''
                | Some n \<Rightarrow> if n = [] then ''Assets'' else n)"

text \<open>
  What one request meets: whether \<^verbatim>\<open>client.connect()\<close> resolves if it is called, whether
  the \<open>k\<close>-th store operation of the request resolves, the clock, and the identifier
  the driver generates for an inserted document.
\<close>

record env =
  connect_ok :: bool
  op_ok :: "nat \<Rightarrow> bool"
  now :: int
  new_id :: objectid

datatype error = ConnectError | QueryError | TypeError

text \<open>The JSON bodies the handlers send, one constructor for each shape.\<close>

datatype body =
    HealthBody string int string
  | Docs "doc list"
  | Doc doc
  | ErrorOnly string
  | ErrorBody string error
  | ContactOk bool string objectid
  | MarkOk bool string
  | DebugBody string string string bool nat nat
      "(bson option \<times> string list) option" "(bson option \<times> string list) option"

record response =
  status :: nat
  body :: body

definition json :: "body \<Rightarrow> response" where
  "json b = \<lparr>status = 200, body = b\<rparr>"

definition status_json :: "nat \<Rightarrow> body \<Rightarrow> response" where
  "status_json n b = \<lparr>status = n, body = b\<rparr>"

section \<open>connectDB\<close>

definition connectDB :: "platform \<Rightarrow> env \<Rightarrow> state \<Rightarrow> state \<times> (error + string)" where
  "connectDB P e s =
     (case (isConnected s, db s) of
        (True, Some h) \<Rightarrow> (s, Inr h)
      | _ \<Rightarrow>
          (let s1 = s\<lparr>connect_calls := connect_calls s + 1\<rparr> in
           if connect_ok e
           then (s1\<lparr>db := Some (DB_NAME P), isConnected := True\<rparr>, Inr (DB_NAME P))
           else (s1, Inl ConnectError)))"

text \<open>A store operation of the request: its result, or the exception it throws.\<close>

definition store_call :: "env \<Rightarrow> nat \<Rightarrow> 'a \<Rightarrow> error + 'a" where
  "store_call e k r = (if op_ok e k then Inr r else Inl QueryError)"

definition find_sorted :: "env \<Rightarrow> nat \<Rightarrow> query \<Rightarrow> string \<Rightarrow> doc list \<Rightarrow> error + doc list" where
  "find_sorted e k q f c = store_call e k (sort_desc f (filter (matches q) c))"

definition findOne :: "env \<Rightarrow> nat \<Rightarrow> query \<Rightarrow> doc list \<Rightarrow> error + doc option" where
  "findOne e k q c = store_call e k (find (matches q) c)"

definition countDocuments :: "env \<Rightarrow> nat \<Rightarrow> query \<Rightarrow> doc list \<Rightarrow> error + nat" where
  "countDocuments e k q c = store_call e k (length (filter (matches q) c))"

text \<open>
  \<^verbatim>\<open>insertOne\<close> of a document without \<^verbatim>\<open>_id\<close>: the driver generates one; the store
  refuses an identifier that a document of the collection already has.
\<close>

definition insertOne :: "env \<Rightarrow> nat \<Rightarrow> doc \<Rightarrow> doc list \<Rightarrow> error + (objectid \<times> doc list)" where
  "insertOne e k d c =
     (if \<not> op_ok e k \<or> list_ex (matches (ById (BOid (new_id e)))) c then Inl QueryError
      else Inr (new_id e, c @ [(''_id'', BOid (new_id e)) # d]))"

definition updateOne ::
  "env \<Rightarrow> nat \<Rightarrow> query \<Rightarrow> (string \<times> bson) list \<Rightarrow> doc list \<Rightarrow> error + (nat \<times> doc list)" where
  "updateOne e k q us c = store_call e k (update_first q us c)"

section \<open>Request values and the checks of the contact form\<close>

text \<open>
  \<^verbatim>\<open>req.body\<close> is the object \<^verbatim>\<open>express.json()\<close> has parsed, of which the handler reads
  three fields. A field is absent (\<^verbatim>\<open>undefined\<close>) or a JSON primitive; nested arrays and
  objects are left out. Numbers are the integral ones that JavaScript prints in full.
  A string is a list of code units, here those below 256.
\<close>

datatype jsval = JUndefined | JNull | JBool bool | JNum int | JStr string

record contact_body =
  name :: jsval
  email :: jsval
  message :: jsval

text \<open>What \<^verbatim>\<open>!v\<close> negates: the empty string, zero, false, null and undefined are falsy.\<close>

fun truthy :: "jsval \<Rightarrow> bool" where
  "truthy JUndefined = False"
| "truthy JNull = False"
| "truthy (JBool b) = b"
| "truthy (JNum n) = (n \<noteq> 0)"
| "truthy (JStr s) = (s \<noteq> [])"

text \<open>
  White space, for \<^verbatim>\<open>\s\<close> and for \<^verbatim>\<open>trim\<close> alike: tab, line feed, vertical tab, form
  feed, carriage return, space and the no-break space.
\<close>

definition is_ws :: "char \<Rightarrow> bool" where
  "is_ws c = (of_char c \<in> {9, 10, 11, 12, 13, 32, 160 :: nat})"

definition trim :: "string \<Rightarrow> string" where
  "trim s = rev (dropWhile is_ws (rev (dropWhile is_ws s)))"

text \<open>A method call \<^verbatim>\<open>v.trim()\<close>: only a string has the method.\<close>

fun trim_js :: "jsval \<Rightarrow> error + string" where
  "trim_js (JStr s) = Inr (trim s)"
| "trim_js _ = Inl TypeError"

fun dec_nat :: "nat \<Rightarrow> string" where
  "dec_nat n = (if n < 10 then [''0123456789'' ! n]
                else dec_nat (n div 10) @ [''0123456789'' ! (n mod 10)])"

declare dec_nat.simps [simp del]

text \<open>The string \<^verbatim>\<open>RegExp.prototype.test\<close> makes of its argument.\<close>

fun toString :: "jsval \<Rightarrow> string" where
  "toString JUndefined = ''undefined''"
| "toString JNull = ''null''"
| "toString (JBool b) = (if b then ''true'' else ''false'')"
| "toString (JNum n) = (if n < 0 then CHR ''-'' # dec_nat (nat (- n)) else dec_nat (nat n))"
| "toString (JStr s) = s"

text \<open>
  Regular expressions of the shape the source uses: anchored at both ends, a sequence of
  literal characters and of character classes repeated one or more times.
\<close>

datatype item = Lit char | Plus "char \<Rightarrow> bool"

fun rx_test :: "item list \<Rightarrow> string \<Rightarrow> bool" where
  "rx_test [] s = (s = [])"
| "rx_test (Lit c # r) [] = False"
| "rx_test (Lit c # r) (x # xs) = (x = c \<and> rx_test r xs)"
| "rx_test (Plus p # r) [] = False"
| "rx_test (Plus p # r) (x # xs) = (p x \<and> (rx_test r xs \<or> rx_test (Plus p # r) xs))"

text \<open>The class \<^verbatim>\<open>[^\s@]\<close> and the expression \<^verbatim>\<open>/^[^\s@]+@[^\s@]+\.[^\s@]+$/\<close>.\<close>

definition not_ws_at :: "char \<Rightarrow> bool" where
  "not_ws_at c = (\<not> is_ws c \<and> c \<noteq> CHR ''@'')"

definition emailRegex :: "item list" where
  "emailRegex = [Plus not_ws_at, Lit CHR ''@'', Plus not_ws_at, Lit CHR ''.'', Plus not_ws_at]"

section \<open>The handlers\<close>

definition health :: "env \<Rightarrow> state \<Rightarrow> state \<times> response" where
  "health e s =
     (s, json (HealthBody ''ok'' (now e) (if isConnected s then ''connected'' else ''disconnected'')))"

definition list_podcasts :: "platform \<Rightarrow> env \<Rightarrow> state \<Rightarrow> state \<times> response" where
  "list_podcasts P e s =
     (case connectDB P e s of
        (s1, Inl err) \<Rightarrow> (s1, status_json 503 (ErrorBody ''Service unavailable'' err))
      | (s1, Inr database) \<Rightarrow>
          (case find_sorted e 0 All ''date'' (podcasts s1) of
             Inl err \<Rightarrow> (s1, status_json 503 (ErrorBody ''Service unavailable'' err))
           | Inr ds \<Rightarrow> (s1, json (Docs ds))))"

definition list_videos :: "platform \<Rightarrow> env \<Rightarrow> state \<Rightarrow> state \<times> response" where
  "list_videos P e s =
     (case connectDB P e s of
        (s1, Inl err) \<Rightarrow> (s1, status_json 503 (ErrorBody ''Service unavailable'' err))
      | (s1, Inr database) \<Rightarrow>
          (case find_sorted e 0 All ''date'' (videos s1) of
             Inl err \<Rightarrow> (s1, status_json 503 (ErrorBody ''Service unavailable'' err))
           | Inr ds \<Rightarrow> (s1, json (Docs ds))))"

text \<open>
  The identifier of the path: \<^verbatim>\<open>new ObjectId(req.params.id)\<close> inside its own
  \<^verbatim>\<open>try\<close>, and the raw string when the constructor throws.
\<close>

definition id_query :: "platform \<Rightarrow> string \<Rightarrow> query" where
  "id_query P ident =
     (case parseObjectId P ident of
        Some oid \<Rightarrow> ById (BOid oid)
      | None \<Rightarrow> ById (BStr ident))"

text \<open>
  The three get-by-id handlers are the same text in the source but for the collection and
  the name in the 404 body.
\<close>

definition get_by_id ::
  "(state \<Rightarrow> doc list) \<Rightarrow> string \<Rightarrow> platform \<Rightarrow> env \<Rightarrow> state \<Rightarrow> string \<Rightarrow> state \<times> response" where
  "get_by_id coll not_found P e s ident =
     (case connectDB P e s of
        (s1, Inl err) \<Rightarrow> (s1, status_json 500 (ErrorBody ''Internal server error'' err))
      | (s1, Inr database) \<Rightarrow>
          (case findOne e 0 (id_query P ident) (coll s1) of
             Inl err \<Rightarrow> (s1, status_json 500 (ErrorBody ''Internal server error'' err))
           | Inr None \<Rightarrow> (s1, status_json 404 (ErrorOnly not_found))
           | Inr (Some d) \<Rightarrow> (s1, json (Doc d))))"

definition get_podcast :: "platform \<Rightarrow> env \<Rightarrow> state \<Rightarrow> string \<Rightarrow> state \<times> response" where
  "get_podcast = get_by_id podcasts ''Podcast not found''"

definition get_video :: "platform \<Rightarrow> env \<Rightarrow> state \<Rightarrow> string \<Rightarrow> state \<times> response" where
  "get_video = get_by_id videos ''Video not found''"

definition get_message :: "platform \<Rightarrow> env \<Rightarrow> state \<Rightarrow> string \<Rightarrow> state \<times> response" where
  "get_message = get_by_id messages ''Message not found''"

definition submit_contact ::
  "platform \<Rightarrow> env \<Rightarrow> state \<Rightarrow> contact_body \<Rightarrow> state \<times> response" where
  "submit_contact P e s b =
     (if \<not> truthy (name b) \<or> \<not> truthy (email b) \<or> \<not> truthy (message b)
      then (s, status_json 400 (ErrorOnly ''All fields are required''))
      else if \<not> rx_test emailRegex (toString (email b))
      then (s, status_json 400 (ErrorOnly ''Invalid email address''))
      else
        (case connectDB P e s of
           (s1, Inl err) \<Rightarrow> (s1, status_json 500 (ErrorBody ''Internal server error'' err))
         | (s1, Inr database) \<Rightarrow>
             (case trim_js (name b) of
                Inl err \<Rightarrow> (s1, status_json 500 (ErrorBody ''Internal server error'' err))
              | Inr n \<Rightarrow>
             (case trim_js (email b) of
                Inl err \<Rightarrow> (s1, status_json 500 (ErrorBody ''Internal server error'' err))
              | Inr em \<Rightarrow>
             (case trim_js (message b) of
                Inl err \<Rightarrow> (s1, status_json 500 (ErrorBody ''Internal server error'' err))
              | Inr m \<Rightarrow>
             (let contactMessage =
                    [(''name'', BStr n), (''email'', BStr em), (''message'', BStr m),
                     (''createdAt'', BDate (now e)), (''read'', BBool False)]
              in case insertOne e 0 contactMessage (messages s1) of
                   Inl err \<Rightarrow> (s1, status_json 500 (ErrorBody ''Internal server error'' err))
                 | Inr (insertedId, c) \<Rightarrow>
                     (s1\<lparr>messages := c\<rparr>,
                      status_json 201 (ContactOk True ''Message sent successfully'' insertedId))))))))"

definition list_messages :: "platform \<Rightarrow> env \<Rightarrow> state \<Rightarrow> state \<times> response" where
  "list_messages P e s =
     (case connectDB P e s of
        (s1, Inl err) \<Rightarrow> (s1, status_json 500 (ErrorBody ''Internal server error'' err))
      | (s1, Inr database) \<Rightarrow>
          (case find_sorted e 0 All ''createdAt'' (messages s1) of
             Inl err \<Rightarrow> (s1, status_json 500 (ErrorBody ''Internal server error'' err))
           | Inr ds \<Rightarrow> (s1, json (Docs ds))))"

definition mark_read :: "platform \<Rightarrow> env \<Rightarrow> state \<Rightarrow> string \<Rightarrow> state \<times> response" where
  "mark_read P e s ident =
     (case connectDB P e s of
        (s1, Inl err) \<Rightarrow> (s1, status_json 500 (ErrorBody ''Internal server error'' err))
      | (s1, Inr database) \<Rightarrow>
          (case updateOne e 0 (id_query P ident)
                  [(''read'', BBool True), (''readAt'', BDate (now e))] (messages s1) of
             Inl err \<Rightarrow> (s1, status_json 500 (ErrorBody ''Internal server error'' err))
           | Inr (matchedCount, c) \<Rightarrow>
               if matchedCount = 0
               then (s1\<lparr>messages := c\<rparr>, status_json 404 (ErrorOnly ''Message not found''))
               else (s1\<lparr>messages := c\<rparr>, json (MarkOk True ''Message marked as read''))))"

definition sample :: "doc option \<Rightarrow> (bson option \<times> string list) option" where
  "sample first = (case first of None \<Rightarrow> None | Some d \<Rightarrow> Some (map_of d ''_id'', map fst d))"

definition debug :: "platform \<Rightarrow> env \<Rightarrow> state \<Rightarrow> state \<times> response" where
  "debug P e s =
     (case connectDB P e s of
        (s1, Inl err) \<Rightarrow> (s1, status_json 503 (ErrorBody ''Debug error'' err))
      | (s1, Inr database) \<Rightarrow>
     (case countDocuments e 0 All (podcasts s1) of
        Inl err \<Rightarrow> (s1, status_json 503 (ErrorBody ''Debug error'' err))
      | Inr podcastCount \<Rightarrow>
     (case countDocuments e 1 All (videos s1) of
        Inl err \<Rightarrow> (s1, status_json 503 (ErrorBody ''Debug error'' err))
      | Inr videoCount \<Rightarrow>
     (case findOne e 2 All (podcasts s1) of
        Inl err \<Rightarrow> (s1, status_json 503 (ErrorBody ''Debug error'' err))
      | Inr firstPodcast \<Rightarrow>
     (case findOne e 3 All (videos s1) of
        Inl err \<Rightarrow> (s1, status_json 503 (ErrorBody ''Debug error'' err))
      | Inr firstVideo \<Rightarrow>
          (s1, json (DebugBody (DB_NAME P) ''podcasts'' ''videos'' (isConnected s1)
                       podcastCount videoCount (sample firstPodcast) (sample firstVideo))))))))"

section \<open>The application: one request after another\<close>

datatype request =
    Health
  | ListPodcasts
  | ListVideos
  | GetPodcast string
  | GetVideo string
  | SubmitContact contact_body
  | ListMessages
  | GetMessage string
  | MarkMessageRead string
  | Debug

fun app :: "platform \<Rightarrow> env \<Rightarrow> state \<Rightarrow> request \<Rightarrow> state \<times> response" where
  "app P e s Health = health e s"
| "app P e s ListPodcasts = list_podcasts P e s"
| "app P e s ListVideos = list_videos P e s"
| "app P e s (GetPodcast i) = get_podcast P e s i"
| "app P e s (GetVideo i) = get_video P e s i"
| "app P e s (SubmitContact b) = submit_contact P e s b"
| "app P e s ListMessages = list_messages P e s"
| "app P e s (GetMessage i) = get_message P e s i"
| "app P e s (MarkMessageRead i) = mark_read P e s i"
| "app P e s Debug = debug P e s"

text \<open>The state when the module has been loaded, over any contents of the store.\<close>

definition start :: "doc list \<Rightarrow> doc list \<Rightarrow> doc list \<Rightarrow> state" where
  "start ps vs ms =
     \<lparr>db = None, isConnected = False, connect_calls = 0,
      podcasts = ps, videos = vs, messages = ms\<rparr>"

fun serve :: "platform \<Rightarrow> state \<Rightarrow> (env \<times> request) list \<Rightarrow> state" where
  "serve P s [] = s"
| "serve P s ((e, r) # rs) = serve P (fst (app P e s r)) rs"

section \<open>Notions used to state the properties\<close>

text \<open>
  The store is available to a request when a connection exists already or the connect
  the request triggers resolves.
\<close>

definition available :: "env \<Rightarrow> state \<Rightarrow> bool" where
  "available e s = (connect_ok e \<or> (isConnected s \<and> db s \<noteq> None))"

text \<open>
  A store failure during a request that makes up to \<open>n\<close> store operations: the connect
  fails, or one of the operations does.
\<close>

definition store_fails :: "env \<Rightarrow> state \<Rightarrow> nat \<Rightarrow> bool" where
  "store_fails e s n = (\<not> available e s \<or> (\<exists>k < n. \<not> op_ok e k))"

text \<open>The first document of a collection whose \<^verbatim>\<open>_id\<close> equals a value.\<close>

definition by_id :: "bson \<Rightarrow> doc list \<Rightarrow> doc option" where
  "by_id v c = find (\<lambda>d. map_of d ''_id'' = Some v) c"

text \<open>What a get-by-id request and a mark-read request answer to the outcome of a lookup.\<close>

definition lookup_response :: "string \<Rightarrow> doc option \<Rightarrow> response" where
  "lookup_response not_found r =
     (case r of None \<Rightarrow> status_json 404 (ErrorOnly not_found) | Some d \<Rightarrow> json (Doc d))"

definition mark_response :: "doc option \<Rightarrow> response" where
  "mark_response r =
     (case r of None \<Rightarrow> status_json 404 (ErrorOnly ''Message not found'')
      | Some d \<Rightarrow> json (MarkOk True ''Message marked as read''))"

text \<open>
  The two connection states: no handle and the flag down, or the handle of the configured
  database and the flag up.
\<close>

definition conn_inv :: "platform \<Rightarrow> state \<Rightarrow> bool" where
  "conn_inv P s = (if isConnected s then db s = Some (DB_NAME P) else db s = None)"

text \<open>
  Concrete inputs on which the theorems are exercised: a driver that accepts one
  24-digit hexadecimal string, a request that finds the store up and one that finds it
  down, and a store with two podcasts and one message that has been read.
\<close>

definition test_platform :: platform where
  "test_platform =
     \<lparr>env_DB_NAME = None,
      parseObjectId = (\<lambda>i. if i = ''65f1c0de65f1c0de65f1c0de'' then Some (ObjectId 7) else None),
      toHexString = (\<lambda>i. ''65f1c0de65f1c0de65f1c0de'')\<rparr>"

definition up :: env where
  "up = \<lparr>connect_ok = True, op_ok = (\<lambda>k. True), now = 1000, new_id = ObjectId 7\<rparr>"

definition down :: env where
  "down = \<lparr>connect_ok = False, op_ok = (\<lambda>k. False), now = 2000, new_id = ObjectId 8\<rparr>"

definition test_state :: state where
  "test_state =
     start [[(''_id'', BStr ''intro''), (''date'', BDate 5)],
            [(''_id'', BOid (ObjectId 7)), (''date'', BDate 9)]]
           []
           [[(''_id'', BStr ''m1''), (''name'', BStr ''Ann''), (''email'', BStr ''ann@x.org''),
             (''message'', BStr ''hello''), (''createdAt'', BDate 3), (''read'', BBool True),
             (''readAt'', BDate 4)]]"

text \<open>
  A store whose messages are not in the order of \<^verbatim>\<open>createdAt\<close>, and whose \<^verbatim>\<open>date\<close>
  attributes run the other way.
\<close>

definition test_inbox :: state where
  "test_inbox =
     start [[(''_id'', BStr ''intro''), (''date'', BDate 5)],
            [(''_id'', BOid (ObjectId 7)), (''date'', BDate 9)]]
           []
           [[(''_id'', BStr ''m1''), (''createdAt'', BDate 3), (''date'', BDate 30)],
            [(''_id'', BStr ''m2''), (''createdAt'', BDate 9), (''date'', BDate 20)],
            [(''_id'', BStr ''m3''), (''createdAt'', BDate 5), (''date'', BDate 10)]]"

section \<open>Lemmas on the connection and the collection operations\<close>

lemmas test_defs = test_platform_def up_def down_def test_state_def start_def available_def

lemma connectDB_cases:
  "(\<exists>h. isConnected s \<and> db s = Some h \<and> connectDB P e s = (s, Inr h)) \<or>
   (\<not> (isConnected s \<and> db s \<noteq> None) \<and> connect_ok e \<and>
      connectDB P e s = (s\<lparr>connect_calls := connect_calls s + 1, db := Some (DB_NAME P), isConnected := True\<rparr>, Inr (DB_NAME P))) \<or>
   (\<not> (isConnected s \<and> db s \<noteq> None) \<and> \<not> connect_ok e \<and>
      connectDB P e s = (s\<lparr>connect_calls := connect_calls s + 1\<rparr>, Inl ConnectError))"
  by (cases "db s"; cases "isConnected s"; simp add: connectDB_def Let_def)

lemma connectDB_store:
  "connectDB P e s = (s1, x) \<Longrightarrow>
     podcasts s1 = podcasts s \<and> videos s1 = videos s \<and> messages s1 = messages s"
  using connectDB_cases [of s P e] by auto

lemma connectDB_available:
  "available e s \<Longrightarrow> \<exists>s1 h. connectDB P e s = (s1, Inr h) \<and> isConnected s1 \<and> db s1 = Some h"
  using connectDB_cases [of s P e] by (auto simp: available_def)

lemma connectDB_unavailable:
  "\<not> available e s \<Longrightarrow> connectDB P e s = (s\<lparr>connect_calls := connect_calls s + 1\<rparr>, Inl ConnectError)"
  using connectDB_cases [of s P e] by (auto simp: available_def)

lemma map_of_set_field:
  "map_of (set_field k v d) k' = (if k' = k then Some v else map_of d k')"
  by (induction d) auto

lemma mset_insert_desc: "mset (insert_desc k x ys) = add_mset x (mset ys)"
  by (induction ys) auto

lemma mset_sort_desc: "mset (sort_desc k xs) = mset xs"
  by (induction xs) (auto simp: mset_insert_desc)

lemma set_insert_desc: "set (insert_desc k x ys) = insert x (set ys)"
  by (induction ys) auto

lemma sorted_insert_desc:
  "sorted_wrt (\<lambda>a b. field_key k b \<le> field_key k a) ys \<Longrightarrow>
   sorted_wrt (\<lambda>a b. field_key k b \<le> field_key k a) (insert_desc k x ys)"
  by (induction ys) (auto simp: set_insert_desc)

lemma sorted_sort_desc: "sorted_wrt (\<lambda>a b. field_key k b \<le> field_key k a) (sort_desc k xs)"
  by (induction xs) (auto simp: sorted_insert_desc)

lemma trim_empty_iff: "trim w = [] \<longleftrightarrow> (\<forall>c \<in> set w. is_ws c)"
proof
  assume "trim w = []"
  then have all: "\<forall>x \<in> set (dropWhile is_ws w). is_ws x"
    by (simp add: trim_def)
  have "dropWhile is_ws w = []"
  proof (rule ccontr)
    assume ne: "dropWhile is_ws w \<noteq> []"
    then have "\<not> is_ws (hd (dropWhile is_ws w))" by (rule hd_dropWhile)
    moreover have "hd (dropWhile is_ws w) \<in> set (dropWhile is_ws w)" using ne by simp
    ultimately show False using all by blast
  qed
  then show "\<forall>c \<in> set w. is_ws c" by simp
next
  assume "\<forall>c \<in> set w. is_ws c"
  then have "dropWhile is_ws w = []" by simp
  then show "trim w = []" by (simp add: trim_def del: dropWhile_eq_Nil_conv)
qed

lemma ws_only_no_email: "w \<noteq> [] \<Longrightarrow> trim w = [] \<Longrightarrow> \<not> rx_test emailRegex w"
  by (cases w) (auto simp: trim_empty_iff emailRegex_def not_ws_at_def)

lemma connectDB_result:
  "connectDB P e s = (s1, x) \<Longrightarrow> (\<exists>h. x = Inr h) = available e s"
  using connectDB_cases [of s P e] by (auto simp: available_def)

lemma connected_after:
  "available e s \<Longrightarrow> available e' (fst (connectDB P e s))"
  using connectDB_available [of e s P] by (auto simp: available_def)

lemma matches_ById: "matches (ById v) = (\<lambda>d. map_of d ''_id'' = Some v)"
  by (rule ext) simp

lemma get_by_id_available:
  assumes "available e s" and "op_ok e 0"
  shows "snd (get_by_id coll nf P e s i) =
           lookup_response nf (find (matches (id_query P i)) (coll (fst (connectDB P e s))))"
proof -
  obtain s1 h where c: "connectDB P e s = (s1, Inr h)"
    using connectDB_available [OF assms(1)] by blast
  show ?thesis
    using assms(2) c
    by (simp add: get_by_id_def findOne_def store_call_def lookup_response_def
        split: option.splits)
qed

lemma update_first_count:
  "fst (update_first q us c) = (case find (matches q) c of None \<Rightarrow> 0 | Some d \<Rightarrow> 1)"
  by (induction c) (auto split: prod.splits)

lemma mark_read_available:
  assumes "available e s" and "op_ok e 0"
  shows "snd (mark_read P e s i) = mark_response (find (matches (id_query P i)) (messages s))"
proof -
  obtain s1 h where c: "connectDB P e s = (s1, Inr h)"
    using connectDB_available [OF assms(1)] by blast
  have m: "messages s1 = messages s" using connectDB_store [OF c] by simp
  obtain n c' where u: "update_first (id_query P i)
      [(''read'', BBool True), (''readAt'', BDate (now e))] (messages s) = (n, c')"
    by (cases "update_first (id_query P i)
      [(''read'', BBool True), (''readAt'', BDate (now e))] (messages s)")
  have n: "n = (case find (matches (id_query P i)) (messages s) of None \<Rightarrow> 0 | Some d \<Rightarrow> 1)"
    using update_first_count [of "id_query P i" _ "messages s"] u by (metis fst_conv)
  show ?thesis
    using assms(2) c m u n
    by (simp add: mark_read_def updateOne_def store_call_def mark_response_def
        split: option.splits)
qed

lemma find_snoc:
  "find Q (xs @ [y]) = (case find Q xs of None \<Rightarrow> (if Q y then Some y else None) | Some x \<Rightarrow> Some x)"
  by (induction xs) auto

lemma update_first_none:
  "find (matches q) c = None \<Longrightarrow> update_first q us c = (0, c)"
  by (induction c) (auto split: if_splits)

lemma update_first_some:
  "find (matches q) c = Some d \<Longrightarrow>
     \<exists>pre post. c = pre @ d # post \<and> (\<forall>x \<in> set pre. \<not> matches q x) \<and> matches q d \<and>
        update_first q us c = (1, pre @ apply_set us d # post)"
proof (induction c)
  case Nil
  then show ?case by simp
next
  case (Cons a c)
  show ?case
  proof (cases "matches q a")
    case True
    with Cons.prems have "a = d" by simp
    with True show ?thesis by (intro exI [of _ "[]"] exI [of _ c]) simp
  next
    case False
    with Cons.prems have "find (matches q) c = Some d" by simp
    from Cons.IH [OF this] obtain pre post where
      "c = pre @ d # post" "\<forall>x \<in> set pre. \<not> matches q x" "matches q d"
      "update_first q us c = (1, pre @ apply_set us d # post)" by blast
    with False show ?thesis
      by (intro exI [of _ "a # pre"] exI [of _ post]) simp
  qed
qed

lemma find_split:
  "(\<forall>x \<in> set pre. \<not> Q x) \<Longrightarrow> Q d \<Longrightarrow> find Q (pre @ d # post) = Some d"
  by (induction pre) auto

lemma mark_read_state:
  assumes "available e s" and "op_ok e 0"
  shows "fst (mark_read P e s i) =
           (fst (connectDB P e s))\<lparr>messages := snd (update_first (id_query P i)
               [(''read'', BBool True), (''readAt'', BDate (now e))] (messages s))\<rparr>"
proof -
  obtain s1 h where c: "connectDB P e s = (s1, Inr h)"
    using connectDB_available [OF assms(1)] by blast
  have m: "messages s1 = messages s" using connectDB_store [OF c] by simp
  show ?thesis
    using assms(2) c m
    by (simp add: mark_read_def updateOne_def store_call_def split: prod.splits)
qed

lemma mark_read_unavailable:
  assumes "\<not> (available e s \<and> op_ok e 0)"
  shows "messages (fst (mark_read P e s i)) = messages s"
proof -
  obtain s1 x where c: "connectDB P e s = (s1, x)" by (cases "connectDB P e s")
  have m: "messages s1 = messages s" using connectDB_store [OF c] by simp
  have "(\<exists>h. x = Inr h) \<longrightarrow> \<not> op_ok e 0"
    using connectDB_result [OF c] assms by auto
  then show ?thesis
    using c m
    by (auto simp: mark_read_def updateOne_def store_call_def split: sum.splits)
qed

lemma mark_read_others:
  "podcasts (fst (mark_read P e s i)) = podcasts s \<and> videos (fst (mark_read P e s i)) = videos s"
proof -
  obtain s1 x where c: "connectDB P e s = (s1, x)" by (cases "connectDB P e s")
  show ?thesis
    using c connectDB_store [OF c]
    by (auto simp: mark_read_def updateOne_def store_call_def split: sum.splits prod.splits)
qed

lemma list_failure:
  assumes "store_fails e s 1"
  shows "status (snd (list_podcasts P e s)) = 503"
    and "status (snd (list_videos P e s)) = 503"
    and "status (snd (list_messages P e s)) = 500"
proof -
  obtain s1 x where c: "connectDB P e s = (s1, x)" by (cases "connectDB P e s")
  have "(\<exists>h. x = Inr h) \<longrightarrow> \<not> op_ok e 0"
    using connectDB_result [OF c] assms by (auto simp: store_fails_def)
  then show "status (snd (list_podcasts P e s)) = 503"
    and "status (snd (list_videos P e s)) = 503"
    and "status (snd (list_messages P e s)) = 500"
    using c
    by (auto simp: list_podcasts_def list_videos_def list_messages_def find_sorted_def
        store_call_def status_json_def split: sum.splits)
qed

lemma single_failure:
  assumes "store_fails e s 1"
  shows "status (snd (get_by_id coll nf P e s i)) = 500"
    and "status (snd (mark_read P e s i)) = 500"
proof -
  obtain s1 x where c: "connectDB P e s = (s1, x)" by (cases "connectDB P e s")
  have "(\<exists>h. x = Inr h) \<longrightarrow> \<not> op_ok e 0"
    using connectDB_result [OF c] assms by (auto simp: store_fails_def)
  then show "status (snd (get_by_id coll nf P e s i)) = 500"
    and "status (snd (mark_read P e s i)) = 500"
    using c
    by (auto simp: get_by_id_def mark_read_def findOne_def updateOne_def
        store_call_def status_json_def split: sum.splits)
qed

lemma debug_failure:
  assumes "store_fails e s 4"
  shows "status (snd (debug P e s)) = 503"
proof -
  obtain s1 x where c: "connectDB P e s = (s1, x)" by (cases "connectDB P e s")
  have "(\<exists>h. x = Inr h) \<longrightarrow> \<not> (op_ok e 0 \<and> op_ok e 1 \<and> op_ok e 2 \<and> op_ok e 3)"
  proof
    assume "\<exists>h. x = Inr h"
    then have "available e s" using connectDB_result [OF c] by simp
    then obtain k where "k < 4" "\<not> op_ok e k" using assms by (auto simp: store_fails_def)
    moreover from \<open>k < 4\<close> have "k = 0 \<or> k = 1 \<or> k = 2 \<or> k = 3" by arith
    ultimately show "\<not> (op_ok e 0 \<and> op_ok e 1 \<and> op_ok e 2 \<and> op_ok e 3)" by auto
  qed
  then show ?thesis
    using c
    by (auto simp: debug_def findOne_def countDocuments_def
        store_call_def status_json_def split: sum.splits)
qed

lemma contact_failure:
  assumes "store_fails e s 1"
    and "truthy (name b)" "truthy (email b)" "truthy (message b)"
    and "rx_test emailRegex (toString (email b))"
  shows "status (snd (submit_contact P e s b)) = 500"
proof -
  obtain s1 x where c: "connectDB P e s = (s1, x)" by (cases "connectDB P e s")
  have "(\<exists>h. x = Inr h) \<longrightarrow> \<not> op_ok e 0"
    using connectDB_result [OF c] assms(1) by (auto simp: store_fails_def)
  then show ?thesis
    using c assms(2-)
    by (auto simp: submit_contact_def insertOne_def status_json_def Let_def
        split: sum.splits)
qed

lemma contact_ok:
  assumes "name b = JStr n" "n \<noteq> []" "email b = JStr em" "rx_test emailRegex em"
    and "message b = JStr m" "m \<noteq> []"
    and "available e s" "op_ok e 0"
    and "by_id (BOid (new_id e)) (messages s) = None"
  shows "submit_contact P e s b =
     ((fst (connectDB P e s))\<lparr>messages := messages s @
         [[(''_id'', BOid (new_id e)), (''name'', BStr (trim n)), (''email'', BStr (trim em)),
           (''message'', BStr (trim m)), (''createdAt'', BDate (now e)), (''read'', BBool False)]]\<rparr>,
      status_json 201 (ContactOk True ''Message sent successfully'' (new_id e)))"
proof -
  obtain s1 h where c: "connectDB P e s = (s1, Inr h)"
    using connectDB_available [OF assms(7)] by blast
  have m: "messages s1 = messages s" using connectDB_store [OF c] by simp
  have f: "\<not> list_ex (matches (ById (BOid (new_id e)))) (messages s)"
    using assms(9) by (simp add: by_id_def find_None_iff list_ex_iff)
  have ne: "em \<noteq> []" using assms(4) by (auto simp: emailRegex_def)
  show ?thesis
    using assms(1-6,8) c m f ne
    by (simp add: submit_contact_def insertOne_def Let_def)
qed

lemma sort_desc_Nil: "sort_desc k xs = [] \<longleftrightarrow> xs = []"
  using mset_sort_desc [of k xs] by (metis mset_zero_iff)

lemma find_sorted_all:
  assumes "op_ok e 0"
  shows "find_sorted e 0 All k c = Inr (sort_desc k c)"
  using assms by (simp add: find_sorted_def store_call_def)

lemma app_state:
  "fst (app P e s r) = s\<lparr>messages := messages (fst (app P e s r))\<rparr> \<or>
   fst (app P e s r) = (fst (connectDB P e s))\<lparr>messages := messages (fst (app P e s r))\<rparr>"
proof -
  obtain s1 x where c: "connectDB P e s = (s1, x)" by (cases "connectDB P e s")
  have m: "messages s1 = messages s" using connectDB_store [OF c] by simp
  have a: "s1\<lparr>messages := messages s\<rparr> = s1" using m by simp
  have b: "s\<lparr>messages := messages s\<rparr> = s" by simp
  show ?thesis
  proof (cases r)
    case Health
    then show ?thesis using b by (auto simp: health_def)
  next
    case ListPodcasts
    then show ?thesis using c a
      by (auto simp: list_podcasts_def split: sum.splits)
  next
    case ListVideos
    then show ?thesis using c a
      by (auto simp: list_videos_def split: sum.splits)
  next
    case (GetPodcast i)
    then show ?thesis using c a
      by (auto simp: get_podcast_def get_by_id_def split: sum.splits option.splits)
  next
    case (GetVideo i)
    then show ?thesis using c a
      by (auto simp: get_video_def get_by_id_def split: sum.splits option.splits)
  next
    case (SubmitContact body)
    then show ?thesis using c a b
      by (auto simp: submit_contact_def Let_def split: sum.splits prod.splits)
  next
    case ListMessages
    then show ?thesis using c a
      by (auto simp: list_messages_def split: sum.splits)
  next
    case (GetMessage i)
    then show ?thesis using c a
      by (auto simp: get_message_def get_by_id_def split: sum.splits option.splits)
  next
    case (MarkMessageRead i)
    then show ?thesis using c a
      by (auto simp: mark_read_def split: sum.splits prod.splits)
  next
    case Debug
    then show ?thesis using c a
      by (auto simp: debug_def split: sum.splits)
  qed
qed

lemma app_state_ex:
  "\<exists>c. fst (app P e s r) = s\<lparr>messages := c\<rparr> \<or>
       fst (app P e s r) = (fst (connectDB P e s))\<lparr>messages := c\<rparr>"
  by (rule exI [where x = "messages (fst (app P e s r))"], rule app_state)


lemma app_transition:
  "(db (fst (app P e s r)) = db s \<and> isConnected (fst (app P e s r)) = isConnected s) \<or>
   (\<not> (isConnected s \<and> db s \<noteq> None) \<and> connect_ok e \<and>
      isConnected (fst (app P e s r)) \<and> db (fst (app P e s r)) = Some (DB_NAME P))"
  using app_state_ex [of P e s r] connectDB_cases [of s P e] by auto

lemma app_inv: "conn_inv P s \<Longrightarrow> conn_inv P (fst (app P e s r))"
  using app_transition [of P e s r] by (auto simp: conn_inv_def split: if_splits)

lemma serve_inv: "conn_inv P s \<Longrightarrow> conn_inv P (serve P s rs)"
  by (induction rs arbitrary: s) (auto simp: app_inv)

lemma start_inv: "conn_inv P (start ps vs ms)"
  by (simp add: conn_inv_def start_def)


lemma apply_set_id:
  "map_of (apply_set [(''read'', BBool True), (''readAt'', BDate t)] d) ''_id'' = map_of d ''_id''"
  by (simp add: map_of_set_field)

lemma id_query_ById: "\<exists>v. id_query P i = ById v"
  by (simp add: id_query_def split: option.splits)

lemma mark_read_step:
  assumes "available e s" and "op_ok e 0"
    and "find (matches (id_query P i)) (messages s) = Some d"
  shows "status (snd (mark_read P e s i)) = 200 \<and>
         available e' (fst (mark_read P e s i)) \<and>
         (\<exists>d'. find (matches (id_query P i)) (messages (fst (mark_read P e s i))) = Some d' \<and>
               map_of d' ''read'' = Some (BBool True))"
proof -
  let ?us = "[(''read'', BBool True), (''readAt'', BDate (now e))]"
  obtain v where q: "id_query P i = ById v" using id_query_ById by blast
  from update_first_some [OF assms(3), of ?us] obtain pre post where
    sp: "\<forall>x \<in> set pre. \<not> matches (id_query P i) x" "matches (id_query P i) d"
    "update_first (id_query P i) ?us (messages s) = (1, pre @ apply_set ?us d # post)"
    by blast
  have st: "fst (mark_read P e s i) =
      (fst (connectDB P e s))\<lparr>messages := pre @ apply_set ?us d # post\<rparr>"
    using mark_read_state [OF assms(1,2), of P i] sp(3) by simp
  have "matches (id_query P i) (apply_set ?us d)"
    using sp(2) q apply_set_id [of "now e" d] by simp
  then have f: "find (matches (id_query P i)) (pre @ apply_set ?us d # post) = Some (apply_set ?us d)"
    using sp(1) by (simp add: find_split)
  have r: "map_of (apply_set ?us d) ''read'' = Some (BBool True)"
    by (simp add: map_of_set_field)
  have a: "available e' (fst (mark_read P e s i))"
    using connected_after [OF assms(1), of e' P] by (simp add: st available_def)
  have "status (snd (mark_read P e s i)) = 200"
    using mark_read_available [OF assms(1,2), of P i] assms(3)
    by (simp add: mark_response_def json_def)
  then show ?thesis using a f r st by simp
qed

lemma bson_key_dates: "bson_key (Some (BDate u)) \<le> bson_key (Some (BDate t)) \<longleftrightarrow> u \<le> t"
  by (auto simp: less_eq_prod_def)

lemma sorted_key_spelled:
  "sorted_wrt (\<lambda>a b. field_key k b \<le> field_key k a) ds \<Longrightarrow>
     sorted_wrt (\<lambda>a b. bson_key (map_of b k) \<le> bson_key (map_of a k)) ds"
  by (simp add: field_key_def)

lemma sorted_dates:
  assumes "sorted_wrt (\<lambda>a b. field_key k b \<le> field_key k a) ds"
  shows "sorted_wrt (\<lambda>a b. \<forall>t u. map_of a k = Some (BDate t) \<and> map_of b k = Some (BDate u)
                              \<longrightarrow> u \<le> t) ds"
proof (rule sorted_wrt_mono_rel [OF _ assms])
  fix a b
  assume "field_key k b \<le> field_key k a"
  then show "\<forall>t u. map_of a k = Some (BDate t) \<and> map_of b k = Some (BDate u) \<longrightarrow> u \<le> t"
    by (auto simp: field_key_def bson_key_dates)
qed

section \<open>The properties\<close>

text \<open>
  C1. In Get Podcast, Get Video, Get Message and Mark Message Read the path identifier is
  first given to the ObjectId constructor. When the constructor accepts it, the lookup is
  by that object identifier. When it throws, the lookup is by the raw path segment, as a
  string compared for equality with \<^verbatim>\<open>_id\<close>, and the request is answered as any
  lookup is: 200 when a document has that key, 404 when none has; the exception of the
  constructor never becomes a response. (The store is available to the request.)
\<close>

theorem path_id_fallback:
  assumes "available e s" and "op_ok e 0"
  shows "(parseObjectId P i = Some oid \<longrightarrow>
            snd (get_podcast P e s i) = lookup_response ''Podcast not found'' (by_id (BOid oid) (podcasts s)) \<and>
            snd (get_video P e s i) = lookup_response ''Video not found'' (by_id (BOid oid) (videos s)) \<and>
            snd (get_message P e s i) = lookup_response ''Message not found'' (by_id (BOid oid) (messages s)) \<and>
            snd (mark_read P e s i) = mark_response (by_id (BOid oid) (messages s)))
       \<and> (parseObjectId P i = None \<longrightarrow>
            snd (get_podcast P e s i) = lookup_response ''Podcast not found'' (by_id (BStr i) (podcasts s)) \<and>
            snd (get_video P e s i) = lookup_response ''Video not found'' (by_id (BStr i) (videos s)) \<and>
            snd (get_message P e s i) = lookup_response ''Message not found'' (by_id (BStr i) (messages s)) \<and>
            snd (mark_read P e s i) = mark_response (by_id (BStr i) (messages s)) \<and>
            status (snd (get_podcast P e s i)) \<in> {200, 404} \<and>
            status (snd (get_video P e s i)) \<in> {200, 404} \<and>
            status (snd (get_message P e s i)) \<in> {200, 404} \<and>
            status (snd (mark_read P e s i)) \<in> {200, 404})"
proof -
  obtain s1 x where c: "connectDB P e s = (s1, x)" by (cases "connectDB P e s")
  note st = connectDB_store [OF c]
  have g: "snd (get_by_id coll nf P e s i) = lookup_response nf (find (matches (id_query P i)) (coll s1))"
    for coll nf
    using get_by_id_available [OF assms, of coll nf P i] c by simp
  have m: "snd (mark_read P e s i) = mark_response (find (matches (id_query P i)) (messages s))"
    by (rule mark_read_available [OF assms])
  have l: "status (lookup_response nf r) = 200 \<or> status (lookup_response nf r) = 404" for nf r
    by (cases r) (simp_all add: lookup_response_def json_def status_json_def)
  have k: "status (mark_response r) = 200 \<or> status (mark_response r) = 404" for r
    by (cases r) (simp_all add: mark_response_def json_def status_json_def)
  show ?thesis
    using st
    by (simp add: get_podcast_def get_video_def get_message_def g m l k id_query_def
        matches_ById by_id_def)
qed

theorem path_id_fallback_witness:
  "available up test_state \<and> op_ok up 0 \<and> parseObjectId test_platform ''intro'' = None \<and>
   snd (get_podcast test_platform up test_state ''intro'') =
     json (Doc [(''_id'', BStr ''intro''), (''date'', BDate 5)]) \<and>
   snd (get_podcast test_platform up test_state ''65f1c0de65f1c0de65f1c0de'') =
     json (Doc [(''_id'', BOid (ObjectId 7)), (''date'', BDate 9)])"
  using path_id_fallback [of up test_state test_platform "''intro''"]
    path_id_fallback [of up test_state test_platform "''65f1c0de65f1c0de65f1c0de''" "ObjectId 7"]
  by (simp add: test_defs by_id_def lookup_response_def)

text \<open>
  C2. A field that is empty after trimming is to be answered 400. The handler misses the
  case of a field made of white space only: it tests the fields as they arrive
  (\<^verbatim>\<open>!name || !email || !message\<close>, under the message \<^verbatim>\<open>All fields are required\<close>) and
  trims them only afterwards, when it builds the document. A name of two spaces,
  which is empty after trimming, passes the test: the request is answered 201 and the
  message is stored with the empty name.
\<close>

theorem whitespace_name_accepted:
  "trim ''  '' = [] \<and>
   status (snd (submit_contact test_platform up test_state
      \<lparr>name = JStr ''  '', email = JStr ''a@b.c'', message = JStr ''hi''\<rparr>)) = 201 \<and>
   messages (fst (submit_contact test_platform up test_state
      \<lparr>name = JStr ''  '', email = JStr ''a@b.c'', message = JStr ''hi''\<rparr>)) =
     messages test_state @
       [[(''_id'', BOid (ObjectId 7)), (''name'', BStr []), (''email'', BStr ''a@b.c''),
         (''message'', BStr ''hi''), (''createdAt'', BDate 1000), (''read'', BBool False)]]"
  by (simp add: submit_contact_def test_defs trim_def is_ws_def emailRegex_def not_ws_at_def
      connectDB_def insertOne_def status_json_def Let_def)

theorem whitespace_name_accepted_witness:
  "trim ''  '' = [] \<and>
   status (snd (submit_contact test_platform up test_state
      \<lparr>name = JStr ''  '', email = JStr ''a@b.c'', message = JStr ''hi''\<rparr>)) \<noteq> 400 \<and>
   length (messages (fst (submit_contact test_platform up test_state
      \<lparr>name = JStr ''  '', email = JStr ''a@b.c'', message = JStr ''hi''\<rparr>))) =
     length (messages test_state) + 1"
  using whitespace_name_accepted by simp

text \<open>
  What the handler does answer with 400: a request in which a field is absent or empty as
  it arrives (or another falsy value), and a request whose email is white space only,
  which the regular expression refuses.
\<close>

theorem missing_field_400:
  assumes "\<not> truthy (name b) \<or> \<not> truthy (email b) \<or> \<not> truthy (message b) \<or>
           (\<exists>w. email b = JStr w \<and> trim w = [])"
  shows "status (snd (submit_contact P e s b)) = 400"
proof (cases "\<not> truthy (name b) \<or> \<not> truthy (email b) \<or> \<not> truthy (message b)")
  case True
  then show ?thesis by (simp add: submit_contact_def status_json_def)
next
  case False
  with assms obtain w where w: "email b = JStr w" "trim w = []" by blast
  with False have "w \<noteq> []" by auto
  then have "\<not> rx_test emailRegex (toString (email b))"
    using w ws_only_no_email by simp
  with False show ?thesis by (simp add: submit_contact_def status_json_def)
qed

theorem missing_field_400_witness:
  "trim '' '' = [] \<and>
   status (snd (submit_contact test_platform up test_state
      \<lparr>name = JStr ''Ann'', email = JStr '' '', message = JStr ''hi''\<rparr>)) = 400 \<and>
   status (snd (submit_contact test_platform up test_state
      \<lparr>name = JStr ''Ann'', email = JStr ''a@b.c'', message = JUndefined\<rparr>)) = 400"
  using missing_field_400 [of "\<lparr>name = JStr ''Ann'', email = JStr '' '', message = JStr ''hi''\<rparr>"
      test_platform up test_state]
    missing_field_400 [of "\<lparr>name = JStr ''Ann'', email = JStr ''a@b.c'', message = JUndefined\<rparr>"
      test_platform up test_state]
  by (simp add: trim_def is_ws_def)

text \<open>
  C3, as stated, fails: List Messages answers a store failure with 500, not 503.
\<close>

theorem list_messages_failure_500:
  "\<not> available down test_state \<and> status (snd (list_messages test_platform down test_state)) = 500"
  by (simp add: list_messages_def test_defs connectDB_def status_json_def Let_def)

text \<open>
  C3, amended. A store failure is answered 503 by List Podcasts, List Videos and Debug,
  and 500 by List Messages, Get Podcast, Get Video, Get Message, Mark Message Read, and
  by Submit Contact when the request has passed validation.
\<close>

theorem store_failure_status:
  "(store_fails e s 1 \<longrightarrow>
      status (snd (list_podcasts P e s)) = 503 \<and>
      status (snd (list_videos P e s)) = 503 \<and>
      status (snd (list_messages P e s)) = 500 \<and>
      status (snd (get_podcast P e s i)) = 500 \<and>
      status (snd (get_video P e s i)) = 500 \<and>
      status (snd (get_message P e s i)) = 500 \<and>
      status (snd (mark_read P e s i)) = 500 \<and>
      (truthy (name b) \<and> truthy (email b) \<and> truthy (message b) \<and>
       rx_test emailRegex (toString (email b)) \<longrightarrow>
         status (snd (submit_contact P e s b)) = 500))
   \<and> (store_fails e s 4 \<longrightarrow> status (snd (debug P e s)) = 503)"
  by (simp add: get_podcast_def get_video_def get_message_def
      list_failure single_failure debug_failure contact_failure)

theorem store_failure_status_witness:
  "store_fails down test_state 1 \<and> store_fails down test_state 4 \<and>
   status (snd (list_podcasts test_platform down test_state)) = 503 \<and>
   status (snd (list_messages test_platform down test_state)) = 500 \<and>
   status (snd (get_message test_platform down test_state ''m1'')) = 500 \<and>
   status (snd (submit_contact test_platform down test_state
      \<lparr>name = JStr ''Ann'', email = JStr ''a@b.c'', message = JStr ''hi''\<rparr>)) = 500 \<and>
   status (snd (debug test_platform down test_state)) = 503"
  using store_failure_status [of down test_state test_platform "''m1''"
      "\<lparr>name = JStr ''Ann'', email = JStr ''a@b.c'', message = JStr ''hi''\<rparr>"]
  by (simp add: store_fails_def test_defs emailRegex_def not_ws_at_def is_ws_def)

text \<open>
  C4. A Submit Contact request that is answered 400 leaves the state as it was: no
  document is inserted, and no connection is attempted either.
\<close>

theorem contact_400_no_insert:
  "status (snd (submit_contact P e s b)) = 400 \<Longrightarrow> fst (submit_contact P e s b) = s"
  by (auto simp: submit_contact_def status_json_def Let_def insertOne_def
      split: if_splits sum.splits prod.splits)

theorem contact_400_no_insert_witness:
  "status (snd (submit_contact test_platform up test_state
      \<lparr>name = JStr ''Ann'', email = JStr ''not-an-email'', message = JStr ''hi''\<rparr>)) = 400 \<and>
   fst (submit_contact test_platform up test_state
      \<lparr>name = JStr ''Ann'', email = JStr ''not-an-email'', message = JStr ''hi''\<rparr>) = test_state"
proof -
  have h: "status (snd (submit_contact test_platform up test_state
      \<lparr>name = JStr ''Ann'', email = JStr ''not-an-email'', message = JStr ''hi''\<rparr>)) = 400"
    by (simp add: submit_contact_def status_json_def emailRegex_def not_ws_at_def is_ws_def)
  show ?thesis using h contact_400_no_insert [OF h] by simp
qed

text \<open>
  C5. A Submit Contact request whose name, email and message are non-empty strings, the
  email matching the regular expression, with the store available and accepting the
  insert (the generated identifier is new to the collection), is answered with status
  201 and the generated identifier. The document appended to the messages has the trimmed fields,
  \<^verbatim>\<open>createdAt\<close> the current time and \<^verbatim>\<open>read\<close> false. A Get Message that follows, on
  the hexadecimal form of the identifier (which the driver parses back to it), is
  answered with status 200 and that document, in which \<^verbatim>\<open>read\<close> is false.
\<close>

theorem contact_then_get:
  assumes "name b = JStr n" "n \<noteq> []" "email b = JStr em" "rx_test emailRegex em"
    and "message b = JStr m" "m \<noteq> []"
    and "available e s" "op_ok e 0"
    and "by_id (BOid (new_id e)) (messages s) = None"
    and "parseObjectId P (toHexString P (new_id e)) = Some (new_id e)"
    and "op_ok e' 0"
    and "d = [(''_id'', BOid (new_id e)), (''name'', BStr (trim n)), (''email'', BStr (trim em)),
           (''message'', BStr (trim m)), (''createdAt'', BDate (now e)), (''read'', BBool False)]"
  shows "snd (submit_contact P e s b) =
           \<lparr>status = 201, body = ContactOk True ''Message sent successfully'' (new_id e)\<rparr> \<and>
         status (snd (submit_contact P e s b)) = 201 \<and>
         messages (fst (submit_contact P e s b)) = messages s @ [d] \<and>
         snd (get_message P e' (fst (submit_contact P e s b)) (toHexString P (new_id e))) =
           \<lparr>status = 200, body = Doc d\<rparr> \<and>
         status (snd (get_message P e' (fst (submit_contact P e s b))
                        (toHexString P (new_id e)))) = 200 \<and>
         map_of d ''read'' = Some (BBool False)"
proof -
  let ?s1 = "fst (connectDB P e s)"
  let ?s2 = "?s1\<lparr>messages := messages s @ [d]\<rparr>"
  have sc: "submit_contact P e s b =
      (?s2, status_json 201 (ContactOk True ''Message sent successfully'' (new_id e)))"
    using contact_ok [OF assms(1-9)] assms(12) by simp
  have "available e' ?s1" using assms(7) by (rule connected_after)
  then have av: "available e' ?s2" by (simp add: available_def)
  have c2: "connectDB P e' ?s2 = (?s2, Inr (the (db ?s2)))"
    using connectDB_available [OF assms(7), of P]
    by (auto simp: connectDB_def)
  have q: "id_query P (toHexString P (new_id e)) = ById (BOid (new_id e))"
    using assms(10) by (simp add: id_query_def)
  have "find (matches (ById (BOid (new_id e)))) (messages s) = None"
    using assms(9) by (simp add: by_id_def matches_ById)
  then have fd: "find (matches (ById (BOid (new_id e)))) (messages s @ [d]) = Some d"
    using assms(12) by (simp add: find_snoc)
  have "snd (get_message P e' ?s2 (toHexString P (new_id e))) = json (Doc d)"
    using get_by_id_available [OF av assms(11), of messages "''Message not found''" P
        "toHexString P (new_id e)"] c2 q fd
    by (simp add: get_message_def lookup_response_def)
  then show ?thesis using sc assms(12) by (simp add: status_json_def json_def)
qed

theorem contact_then_get_witness:
  "rx_test emailRegex ''bob@x.org'' \<and> available up test_state \<and>
   by_id (BOid (new_id up)) (messages test_state) = None \<and>
   parseObjectId test_platform (toHexString test_platform (new_id up)) = Some (new_id up) \<and>
   snd (submit_contact test_platform up test_state
          \<lparr>name = JStr '' Bob'', email = JStr ''bob@x.org'', message = JStr ''hi ''\<rparr>) =
     \<lparr>status = 201, body = ContactOk True ''Message sent successfully'' (ObjectId 7)\<rparr> \<and>
   status (snd (submit_contact test_platform up test_state
          \<lparr>name = JStr '' Bob'', email = JStr ''bob@x.org'', message = JStr ''hi ''\<rparr>)) = 201 \<and>
   snd (get_message test_platform up
          (fst (submit_contact test_platform up test_state
                 \<lparr>name = JStr '' Bob'', email = JStr ''bob@x.org'', message = JStr ''hi ''\<rparr>))
          ''65f1c0de65f1c0de65f1c0de'') =
     \<lparr>status = 200,
      body = Doc [(''_id'', BOid (ObjectId 7)), (''name'', BStr ''Bob''), (''email'', BStr ''bob@x.org''),
           (''message'', BStr ''hi''), (''createdAt'', BDate 1000), (''read'', BBool False)]\<rparr>"
proof -
  have r: "rx_test emailRegex ''bob@x.org''"
    by (simp add: emailRegex_def not_ws_at_def is_ws_def)
  have t: "trim '' Bob'' = ''Bob''" "trim ''bob@x.org'' = ''bob@x.org''" "trim ''hi '' = ''hi''"
    by (simp_all add: trim_def is_ws_def)
  show ?thesis
    using r contact_then_get [of "\<lparr>name = JStr '' Bob'', email = JStr ''bob@x.org'', message = JStr ''hi ''\<rparr>"
        "'' Bob''" "''bob@x.org''" "''hi ''" up test_state test_platform up, OF _ _ _ r]
    by (simp add: test_defs by_id_def t)
qed

text \<open>
  C6. With the store available, Mark Message Read answers 404 exactly when no message
  matches the identifier. For a message that exists, the first invocation and a second
  one are both answered 200, and after each of them the message found under the
  identifier has \<^verbatim>\<open>read\<close> true.
\<close>

theorem mark_read_twice:
  assumes "available e1 s" and "op_ok e1 0" and "op_ok e2 0"
  shows "(status (snd (mark_read P e1 s i)) = 404 \<longleftrightarrow>
            find (matches (id_query P i)) (messages s) = None)
    \<and> (find (matches (id_query P i)) (messages s) \<noteq> None \<longrightarrow>
         status (snd (mark_read P e1 s i)) = 200 \<and>
         status (snd (mark_read P e2 (fst (mark_read P e1 s i)) i)) = 200 \<and>
         (\<exists>d'. find (matches (id_query P i)) (messages (fst (mark_read P e1 s i))) = Some d' \<and>
               map_of d' ''read'' = Some (BBool True)) \<and>
         (\<exists>d'. find (matches (id_query P i))
                  (messages (fst (mark_read P e2 (fst (mark_read P e1 s i)) i))) = Some d' \<and>
               map_of d' ''read'' = Some (BBool True)))"
proof -
  have a: "status (snd (mark_read P e1 s i)) = 404 \<longleftrightarrow>
            find (matches (id_query P i)) (messages s) = None"
    using mark_read_available [OF assms(1,2), of P i]
    by (simp add: mark_response_def json_def status_json_def split: option.splits)
  have b: "status (snd (mark_read P e1 s i)) = 200 \<and>
         status (snd (mark_read P e2 (fst (mark_read P e1 s i)) i)) = 200 \<and>
         (\<exists>d'. find (matches (id_query P i)) (messages (fst (mark_read P e1 s i))) = Some d' \<and>
               map_of d' ''read'' = Some (BBool True)) \<and>
         (\<exists>d'. find (matches (id_query P i))
                  (messages (fst (mark_read P e2 (fst (mark_read P e1 s i)) i))) = Some d' \<and>
               map_of d' ''read'' = Some (BBool True))"
    if "find (matches (id_query P i)) (messages s) \<noteq> None"
  proof -
    from that obtain d where d: "find (matches (id_query P i)) (messages s) = Some d" by blast
    let ?s1 = "fst (mark_read P e1 s i)"
    from mark_read_step [OF assms(1,2) d, of e2] obtain d1 where
      1: "status (snd (mark_read P e1 s i)) = 200" "available e2 ?s1"
      "find (matches (id_query P i)) (messages ?s1) = Some d1"
      "map_of d1 ''read'' = Some (BBool True)" by blast
    from mark_read_step [OF 1(2) assms(3) 1(3), of e2] 1(1,3,4)
    show ?thesis by simp
  qed
  show ?thesis using a b by blast
qed

theorem mark_read_twice_witness:
  "available up test_state \<and> op_ok up 0 \<and>
   find (matches (id_query test_platform ''m1'')) (messages test_state) \<noteq> None \<and>
   status (snd (mark_read test_platform up test_state ''m1'')) = 200 \<and>
   status (snd (mark_read test_platform up
                  (fst (mark_read test_platform up test_state ''m1'')) ''m1'')) = 200 \<and>
   status (snd (mark_read test_platform up test_state ''m2'')) = 404"
proof -
  have h: "available up test_state" "op_ok up 0" by (simp_all add: test_defs)
  have f: "find (matches (id_query test_platform ''m1'')) (messages test_state) \<noteq> None"
    by (simp add: test_defs id_query_def)
  have g: "find (matches (id_query test_platform ''m2'')) (messages test_state) = None"
    by (simp add: test_defs id_query_def)
  show ?thesis
    using h f g mark_read_twice [OF h h(2), of test_platform "''m1''"]
      mark_read_twice [OF h h(2), of test_platform "''m2''"]
    by simp
qed



text \<open>
  C8. With the store available, List Podcasts and List Videos answer 200 with all the
  documents of the collection, in descending order of \<^verbatim>\<open>date\<close>, and List Messages
  answers 200 with all the messages, in descending order of \<^verbatim>\<open>createdAt\<close>; an empty
  collection gives the empty array. The order is that of the store's comparison of the
  values of the attribute; in particular, of two documents that carry dates in the
  attribute, the one with the later date comes first.
\<close>

theorem lists_sorted_desc:
  assumes "available e s" and "op_ok e 0"
  shows "(\<exists>ds. snd (list_podcasts P e s) = \<lparr>status = 200, body = Docs ds\<rparr> \<and>
            mset ds = mset (podcasts s) \<and>
            sorted_wrt (\<lambda>a b. field_key ''date'' b \<le> field_key ''date'' a) ds \<and>
            sorted_wrt (\<lambda>a b. bson_key (map_of b ''date'') \<le> bson_key (map_of a ''date'')) ds \<and>
            sorted_wrt (\<lambda>a b. \<forall>t u. map_of a ''date'' = Some (BDate t) \<and>
                                    map_of b ''date'' = Some (BDate u) \<longrightarrow> u \<le> t) ds \<and>
            (podcasts s = [] \<longrightarrow> ds = []))
       \<and> (\<exists>ds. snd (list_videos P e s) = \<lparr>status = 200, body = Docs ds\<rparr> \<and>
            mset ds = mset (videos s) \<and>
            sorted_wrt (\<lambda>a b. field_key ''date'' b \<le> field_key ''date'' a) ds \<and>
            sorted_wrt (\<lambda>a b. bson_key (map_of b ''date'') \<le> bson_key (map_of a ''date'')) ds \<and>
            sorted_wrt (\<lambda>a b. \<forall>t u. map_of a ''date'' = Some (BDate t) \<and>
                                    map_of b ''date'' = Some (BDate u) \<longrightarrow> u \<le> t) ds \<and>
            (videos s = [] \<longrightarrow> ds = []))
       \<and> (\<exists>ds. snd (list_messages P e s) = \<lparr>status = 200, body = Docs ds\<rparr> \<and>
            mset ds = mset (messages s) \<and>
            sorted_wrt (\<lambda>a b. field_key ''createdAt'' b \<le> field_key ''createdAt'' a) ds \<and>
            sorted_wrt (\<lambda>a b. bson_key (map_of b ''createdAt'') \<le>
                               bson_key (map_of a ''createdAt'')) ds \<and>
            sorted_wrt (\<lambda>a b. \<forall>t u. map_of a ''createdAt'' = Some (BDate t) \<and>
                                    map_of b ''createdAt'' = Some (BDate u) \<longrightarrow> u \<le> t) ds \<and>
            (messages s = [] \<longrightarrow> ds = []))"
proof -
  obtain s1 h where c: "connectDB P e s = (s1, Inr h)"
    using connectDB_available [OF assms(1)] by blast
  note st = connectDB_store [OF c]
  have p: "snd (list_podcasts P e s) = json (Docs (sort_desc ''date'' (podcasts s)))"
    using c st find_sorted_all [OF assms(2)] by (simp add: list_podcasts_def)
  have v: "snd (list_videos P e s) = json (Docs (sort_desc ''date'' (videos s)))"
    using c st find_sorted_all [OF assms(2)] by (simp add: list_videos_def)
  have m: "snd (list_messages P e s) = json (Docs (sort_desc ''createdAt'' (messages s)))"
    using c st find_sorted_all [OF assms(2)] by (simp add: list_messages_def)
  note srt = sorted_sort_desc sorted_key_spelled [OF sorted_sort_desc]
    sorted_dates [OF sorted_sort_desc]
  show ?thesis
    using p v m
    by (simp add: mset_sort_desc srt sort_desc_Nil json_def)
qed

theorem lists_sorted_desc_witness:
  "available up test_inbox \<and> op_ok up 0 \<and>
   snd (list_messages test_platform up test_inbox) =
     \<lparr>status = 200,
      body = Docs [[(''_id'', BStr ''m2''), (''createdAt'', BDate 9), (''date'', BDate 20)],
                   [(''_id'', BStr ''m3''), (''createdAt'', BDate 5), (''date'', BDate 10)],
                   [(''_id'', BStr ''m1''), (''createdAt'', BDate 3), (''date'', BDate 30)]]\<rparr> \<and>
   sorted_wrt (\<lambda>a b. \<forall>t u. map_of a ''createdAt'' = Some (BDate t) \<and>
                           map_of b ''createdAt'' = Some (BDate u) \<longrightarrow> u \<le> t)
     [[(''_id'', BStr ''m2''), (''createdAt'', BDate 9), (''date'', BDate 20)],
      [(''_id'', BStr ''m3''), (''createdAt'', BDate 5), (''date'', BDate 10)],
      [(''_id'', BStr ''m1''), (''createdAt'', BDate 3), (''date'', BDate 30)]] \<and>
   snd (list_podcasts test_platform up test_inbox) =
     \<lparr>status = 200, body = Docs [[(''_id'', BOid (ObjectId 7)), (''date'', BDate 9)],
                 [(''_id'', BStr ''intro''), (''date'', BDate 5)]]\<rparr> \<and>
   snd (list_videos test_platform up test_inbox) = \<lparr>status = 200, body = Docs []\<rparr>"
proof -
  let ?sorted = "[[(''_id'', BStr ''m2''), (''createdAt'', BDate 9), (''date'', BDate 20)],
      [(''_id'', BStr ''m3''), (''createdAt'', BDate 5), (''date'', BDate 10)],
      [(''_id'', BStr ''m1''), (''createdAt'', BDate 3), (''date'', BDate 30)]]"
  have h: "available up test_inbox" "op_ok up 0"
    by (simp_all add: test_inbox_def test_defs)
  note t = lists_sorted_desc [OF h, of test_platform]
  from t have "\<exists>ds. snd (list_videos test_platform up test_inbox) = \<lparr>status = 200, body = Docs ds\<rparr> \<and>
           (videos test_inbox = [] \<longrightarrow> ds = [])" by blast
  moreover have "videos test_inbox = []" by (simp add: test_inbox_def test_defs)
  ultimately have v: "snd (list_videos test_platform up test_inbox) = \<lparr>status = 200, body = Docs []\<rparr>"
    by auto
  have p: "snd (list_podcasts test_platform up test_inbox) =
     \<lparr>status = 200, body = Docs [[(''_id'', BOid (ObjectId 7)), (''date'', BDate 9)],
                 [(''_id'', BStr ''intro''), (''date'', BDate 5)]]\<rparr>"
    by (simp add: list_podcasts_def connectDB_def test_inbox_def test_defs Let_def find_sorted_def
        store_call_def field_key_def json_def)
  have m: "snd (list_messages test_platform up test_inbox) = \<lparr>status = 200, body = Docs ?sorted\<rparr>"
    by (simp add: list_messages_def connectDB_def test_inbox_def test_defs Let_def find_sorted_def
        store_call_def field_key_def json_def)
  from t obtain ds where
    "snd (list_messages test_platform up test_inbox) = \<lparr>status = 200, body = Docs ds\<rparr>"
    "sorted_wrt (\<lambda>a b. \<forall>t u. map_of a ''createdAt'' = Some (BDate t) \<and>
                           map_of b ''createdAt'' = Some (BDate u) \<longrightarrow> u \<le> t) ds"
    by blast
  with m have s: "sorted_wrt (\<lambda>a b. \<forall>t u. map_of a ''createdAt'' = Some (BDate t) \<and>
                           map_of b ''createdAt'' = Some (BDate u) \<longrightarrow> u \<le> t) ?sorted"
    by simp
  show ?thesis using h v p m s by simp
qed

text \<open>
  C9. Health answers 200 in every state and changes nothing. Its body has the status
  \<^verbatim>\<open>ok\<close>, the current time, and a database field that is \<^verbatim>\<open>connected\<close> or
  \<^verbatim>\<open>disconnected\<close>, after the flag; in every state the application reaches from its
  start that is: connected exactly when a handle has been established.
\<close>

theorem health_always_200:
  "status (snd (health e s)) = 200 \<and> fst (health e s) = s \<and>
   (\<exists>d. body (snd (health e s)) = HealthBody ''ok'' (now e) d \<and>
        (d = ''connected'' \<or> d = ''disconnected'') \<and> (d = ''connected'' \<longleftrightarrow> isConnected s)) \<and>
   (s = serve P (start ps vs ms) rs \<longrightarrow>
      body (snd (health e s)) =
        HealthBody ''ok'' (now e) (if db s \<noteq> None then ''connected'' else ''disconnected''))"
proof -
  have "isConnected s \<longleftrightarrow> db s \<noteq> None" if "s = serve P (start ps vs ms) rs"
    using that serve_inv [OF start_inv, of P ps vs ms rs]
    by (auto simp: conn_inv_def split: if_splits)
  then show ?thesis by (auto simp: health_def json_def)
qed

theorem health_always_200_witness:
  "body (snd (health down (serve test_platform (start [] [] []) [(up, ListPodcasts)]))) =
     HealthBody ''ok'' 2000 ''connected'' \<and>
   body (snd (health down (serve test_platform (start [] [] []) [(down, ListPodcasts)]))) =
     HealthBody ''ok'' 2000 ''disconnected'' \<and>
   status (snd (health down (serve test_platform (start [] [] []) [(down, ListPodcasts)]))) = 200"
proof -
  have a: "db (serve test_platform (start [] [] []) [(up, ListPodcasts)]) \<noteq> None"
    by (simp add: list_podcasts_def connectDB_def test_defs Let_def find_sorted_def store_call_def)
  have b: "db (serve test_platform (start [] [] []) [(down, ListPodcasts)]) = None"
    by (simp add: list_podcasts_def connectDB_def test_defs Let_def find_sorted_def store_call_def)
  have n: "now down = 2000" by (simp add: down_def)
  show ?thesis
    using health_always_200 [of down "serve test_platform (start [] [] []) [(up, ListPodcasts)]"
        test_platform "[]" "[]" "[]" "[(up, ListPodcasts)]"]
      health_always_200 [of down "serve test_platform (start [] [] []) [(down, ListPodcasts)]"
        test_platform "[]" "[]" "[]" "[(down, ListPodcasts)]"] a b n
    by simp
qed

text \<open>
  C10. Mark Message Read leaves the podcasts and the videos as they are, and changes at
  most one message: the first that matches the identifier. In that message \<^verbatim>\<open>read\<close>
  becomes true and \<^verbatim>\<open>readAt\<close> the current time, whatever they were before, and every
  other attribute (name, email, message, createdAt among them) keeps its value. When the
  store fails or no message matches, the messages are unchanged.
\<close>

theorem mark_read_frame:
  "podcasts (fst (mark_read P e s i)) = podcasts s \<and>
   videos (fst (mark_read P e s i)) = videos s \<and>
   (\<not> (available e s \<and> op_ok e 0) \<longrightarrow> messages (fst (mark_read P e s i)) = messages s) \<and>
   (available e s \<and> op_ok e 0 \<longrightarrow>
     (case find (matches (id_query P i)) (messages s) of
        None \<Rightarrow> messages (fst (mark_read P e s i)) = messages s
      | Some d \<Rightarrow>
          (\<exists>pre post d'. messages s = pre @ d # post \<and>
             (\<forall>x \<in> set pre. \<not> matches (id_query P i) x) \<and>
             messages (fst (mark_read P e s i)) = pre @ d' # post \<and>
             map_of d' ''read'' = Some (BBool True) \<and>
             map_of d' ''readAt'' = Some (BDate (now e)) \<and>
             (\<forall>k. k \<noteq> ''read'' \<and> k \<noteq> ''readAt'' \<longrightarrow> map_of d' k = map_of d k))))"
proof (intro conjI impI)
  show "podcasts (fst (mark_read P e s i)) = podcasts s" using mark_read_others by blast
  show "videos (fst (mark_read P e s i)) = videos s" using mark_read_others by blast
  show "messages (fst (mark_read P e s i)) = messages s" if "\<not> (available e s \<and> op_ok e 0)"
    using that by (rule mark_read_unavailable)
next
  assume a: "available e s \<and> op_ok e 0"
  let ?us = "[(''read'', BBool True), (''readAt'', BDate (now e))]"
  have st: "messages (fst (mark_read P e s i)) = snd (update_first (id_query P i) ?us (messages s))"
    using a mark_read_state [of e s P i] by simp
  show "case find (matches (id_query P i)) (messages s) of
        None \<Rightarrow> messages (fst (mark_read P e s i)) = messages s
      | Some d \<Rightarrow>
          (\<exists>pre post d'. messages s = pre @ d # post \<and>
             (\<forall>x \<in> set pre. \<not> matches (id_query P i) x) \<and>
             messages (fst (mark_read P e s i)) = pre @ d' # post \<and>
             map_of d' ''read'' = Some (BBool True) \<and>
             map_of d' ''readAt'' = Some (BDate (now e)) \<and>
             (\<forall>k. k \<noteq> ''read'' \<and> k \<noteq> ''readAt'' \<longrightarrow> map_of d' k = map_of d k))"
  proof (cases "find (matches (id_query P i)) (messages s)")
    case None
    then show ?thesis using st update_first_none [OF None] by simp
  next
    case (Some d)
    from update_first_some [OF Some, of ?us] obtain pre post where
      sp: "messages s = pre @ d # post" "\<forall>x \<in> set pre. \<not> matches (id_query P i) x"
      "update_first (id_query P i) ?us (messages s) = (1, pre @ apply_set ?us d # post)"
      by blast
    have "messages (fst (mark_read P e s i)) = pre @ apply_set ?us d # post"
      using st sp(3) by simp
    moreover have "map_of (apply_set ?us d) ''read'' = Some (BBool True)"
      by (simp add: map_of_set_field)
    moreover have "map_of (apply_set ?us d) ''readAt'' = Some (BDate (now e))"
      by (simp add: map_of_set_field)
    moreover have "\<forall>k. k \<noteq> ''read'' \<and> k \<noteq> ''readAt'' \<longrightarrow> map_of (apply_set ?us d) k = map_of d k"
      by (simp add: map_of_set_field)
    ultimately show ?thesis using Some sp(1,2) by auto
  qed
qed

theorem mark_read_frame_witness:
  "available up test_state \<and> op_ok up 0 \<and>
   (\<exists>pre post d'.
      messages test_state = pre @ [(''_id'', BStr ''m1''), (''name'', BStr ''Ann''),
         (''email'', BStr ''ann@x.org''), (''message'', BStr ''hello''),
         (''createdAt'', BDate 3), (''read'', BBool True), (''readAt'', BDate 4)] # post \<and>
      messages (fst (mark_read test_platform up test_state ''m1'')) = pre @ d' # post \<and>
      map_of d' ''read'' = Some (BBool True) \<and>
      map_of d' ''readAt'' = Some (BDate 1000) \<and>
      map_of d' ''name'' = Some (BStr ''Ann'') \<and>
      map_of d' ''createdAt'' = Some (BDate 3))"
proof -
  let ?d = "[(''_id'', BStr ''m1''), (''name'', BStr ''Ann''),
         (''email'', BStr ''ann@x.org''), (''message'', BStr ''hello''),
         (''createdAt'', BDate 3), (''read'', BBool True), (''readAt'', BDate 4)]"
  have h: "available up test_state \<and> op_ok up 0" by (simp add: test_defs)
  have f: "find (matches (id_query test_platform ''m1'')) (messages test_state) = Some ?d"
    by (simp add: test_defs id_query_def)
  have n: "now up = 1000" by (simp add: up_def)
  from mark_read_frame [of test_platform up test_state "''m1''"] h f
  obtain pre post d' where
    "messages test_state = pre @ ?d # post"
    "messages (fst (mark_read test_platform up test_state ''m1'')) = pre @ d' # post"
    "map_of d' ''read'' = Some (BBool True)"
    "map_of d' ''readAt'' = Some (BDate (now up))"
    "\<forall>k. k \<noteq> ''read'' \<and> k \<noteq> ''readAt'' \<longrightarrow> map_of d' k = map_of ?d k"
    by auto
  then show ?thesis using h n by (intro conjI exI [of _ pre] exI [of _ post] exI [of _ d']) simp_all
qed

end
